theory Spec2Isabelle
  imports Main
begin

section \<open>Data model\<close>

text \<open>
  The development embeds \<^verbatim>\<open>FeatureFolderEncrypt.ts\<close>: the folder commands
  \<^verbatim>\<open>processEncryptFolder\<close> and \<^verbatim>\<open>processDecryptFolder\<close> with their helpers.

  A \<^verbatim>\<open>TFile\<close> is a mutable object that the code holds by reference: the array of
  eligible files is computed once, and a rename changes the \<^verbatim>\<open>path\<close> of the very
  object the loop still holds. A file is therefore an identifier, and the vault maps
  identifiers to their current path and stored text.
\<close>

type_synonym fid = nat

record PasswordAndHint =
  password :: string
  hint :: string

record TFolder =
  path :: string
  name :: string

text \<open>
  What a workspace leaf shows. \<open>EncryptedMarkdownView\<close> is the plugin's own subclass of
  \<^verbatim>\<open>TextFileView\<close>; \<open>TextFileView\<close> stands for every other text file view;
  \<open>OtherView\<close> is a view that is not an instance of \<^verbatim>\<open>TextFileView\<close>. The \<^verbatim>\<open>file\<close>
  of a text file view may be null.
\<close>

datatype view =
    EncryptedMarkdownView "fid option"
  | TextFileView "fid option"
  | OtherView

text \<open>
  Modelled from the spec: the trust levels of \<^verbatim>\<open>SessionPasswordService\<close>, whose source
  is not part of the embedded file. The code only compares the level with
  \<^verbatim>\<open>LevelExternalFile\<close>.
\<close>

datatype Level = LevelNone | LevelPerFile | LevelExternalFile

text \<open>The faults of the error taxonomy; a thrown JavaScript exception is one of them.\<close>

datatype exn = StorageFailed | CryptoFailed | MalformedEnvelope | DecryptFailed

text \<open>
  The calls the code makes to its collaborators, in the order it makes them. The log is
  what the temporal claims are stated on.
\<close>

datatype event =
    EvGetByPath string
  | EvOpenModal string bool bool PasswordAndHint
  | EvRead fid
  | EvDetach view
  | EvDetachSafely view
  | EvRename fid string
  | EvModify fid string
  | EvPutByFile PasswordAndHint fid
  | EvOpenFile fid
  | EvConsoleError string string

record world =
  getFiles :: "fid list"
  file_path :: "fid \<Rightarrow> string"
  file_data :: "fid \<Rightarrow> string"
  leaves :: "view list"
  level :: Level
  cache :: "string \<Rightarrow> PasswordAndHint option"
  notices :: "string list"
  events :: "event list"

text \<open>
  The collaborators whose behaviour the code does not decide: the two constants of
  \<^verbatim>\<open>Constants.ts\<close>, the storage faults, the crypto primitive, the codec and the user in
  front of the password modal. Storage faults, the randomised encryption and the user's
  answer may depend on the whole state, which includes the log of earlier calls.
  \<open>openAsync\<close> returns \<open>None\<close> when the modal's promise is rejected.
\<close>

record 'e env =
  ENCRYPTED_FILE_EXTENSIONS :: "string list"
  ENCRYPTED_FILE_EXTENSION_DEFAULT :: string
  read_fails :: "world \<Rightarrow> fid \<Rightarrow> bool"
  rename_fails :: "world \<Rightarrow> fid \<Rightarrow> string \<Rightarrow> bool"
  modify_fails :: "world \<Rightarrow> fid \<Rightarrow> string \<Rightarrow> bool"
  encrypt :: "world \<Rightarrow> string \<Rightarrow> string \<Rightarrow> string \<Rightarrow> exn + 'e"
  encode :: "'e \<Rightarrow> string"
  decode :: "string \<Rightarrow> exn + 'e"
  decrypt :: "'e \<Rightarrow> string \<Rightarrow> exn + string option"
  openAsync :: "world \<Rightarrow> string \<Rightarrow> bool \<Rightarrow> bool \<Rightarrow> PasswordAndHint \<Rightarrow> PasswordAndHint option"

definition log :: "event \<Rightarrow> world \<Rightarrow> world" where
  "log e w = w\<lparr>events := events w @ [e]\<rparr>"

section \<open>Paths and extensions\<close>

text \<open>
  The name of a file is the last segment of its slash-separated path; its extension is
  what follows the last dot of the name (empty when the name has no dot), and its base
  name is what precedes that dot.
\<close>

definition is_slash :: "char \<Rightarrow> bool" where
  "is_slash c = (c = CHR ''/'')"

definition is_dot :: "char \<Rightarrow> bool" where
  "is_dot c = (c = CHR ''.'')"

definition parent_prefix :: "string \<Rightarrow> string" where
  "parent_prefix p = rev (dropWhile (\<lambda>c. \<not> is_slash c) (rev p))"

definition file_name :: "string \<Rightarrow> string" where
  "file_name p = rev (takeWhile (\<lambda>c. \<not> is_slash c) (rev p))"

definition extension_of :: "string \<Rightarrow> string" where
  "extension_of p =
     (let n = file_name p
      in if list_ex is_dot n then rev (takeWhile (\<lambda>c. \<not> is_dot c) (rev n)) else [])"

definition basename_of :: "string \<Rightarrow> string" where
  "basename_of p =
     (let n = file_name p
      in if list_ex is_dot n then rev (tl (dropWhile (\<lambda>c. \<not> is_dot c) (rev n))) else n)"

definition extension :: "world \<Rightarrow> fid \<Rightarrow> string" where
  "extension w f = extension_of (file_path w f)"

text \<open>
  Modelled from the spec: \<^verbatim>\<open>Utils.getFilePathWithNewExtension\<close>, whose source is not
  part of the embedded file. It replaces the final extension segment of the file's path
  and preserves directory and base name.
\<close>

definition getFilePathWithNewExtension :: "world \<Rightarrow> fid \<Rightarrow> string \<Rightarrow> string" where
  "getFilePathWithNewExtension w file newExtension =
     parent_prefix (file_path w file) @ basename_of (file_path w file) @ ''.'' @ newExtension"

section \<open>Directory scanner\<close>

text \<open>\<^verbatim>\<open>String.prototype.startsWith\<close>.\<close>

fun startsWith :: "string \<Rightarrow> string \<Rightarrow> bool" where
  "startsWith s [] = True"
| "startsWith [] (p # ps) = False"
| "startsWith (c # cs) (p # ps) = (c = p \<and> startsWith cs ps)"

definition getFilesRecursively :: "world \<Rightarrow> TFolder \<Rightarrow> fid list" where
  "getFilesRecursively w folder =
     (let allFiles = getFiles w;
          prefix = (if length (path folder) > 0 then path folder @ ''/'' else '''')
      in filter (\<lambda>f. startsWith (file_path w f) prefix) allFiles)"

definition getMarkdownFiles :: "world \<Rightarrow> TFolder \<Rightarrow> fid list" where
  "getMarkdownFiles w folder =
     filter (\<lambda>f. extension w f = ''md'') (getFilesRecursively w folder)"

definition getEncryptedFiles :: "'e env \<Rightarrow> world \<Rightarrow> TFolder \<Rightarrow> fid list" where
  "getEncryptedFiles env w folder =
     filter (\<lambda>f. extension w f \<in> set (ENCRYPTED_FILE_EXTENSIONS env))
       (getFilesRecursively w folder)"

text \<open>
  The root folder of a vault, as the host application hands it to the folder menu: its
  path is a single slash and its name is empty. This is the host's data model; the
  embedded file does not decide it.
\<close>

definition vault_root :: TFolder where
  "vault_root = \<lparr> path = ''/'', name = '''' \<rparr>"

definition isRoot :: "TFolder \<Rightarrow> bool" where
  "isRoot folder = (path folder = ''/'')"

text \<open>
  The membership of a file in a directory, as the data model words it: the path of the
  file starts with the path of the directory followed by a slash, and nothing is required
  of a file when the directory is the root.
\<close>

definition belongs_to :: "world \<Rightarrow> fid \<Rightarrow> TFolder \<Rightarrow> bool" where
  "belongs_to w f folder =
     (isRoot folder \<or> (\<exists>rest. file_path w f = path folder @ ''/'' @ rest))"

section \<open>Session password cache\<close>

text \<open>
  Modelled from the spec: the empty sentinel of \<^verbatim>\<open>PasswordAndHint\<close>, the value that
  \<^verbatim>\<open>SessionPasswordService\<close> (whose source is not part of the embedded file) gives
  for a password that is not yet known.
\<close>

definition blank :: PasswordAndHint where
  "blank = \<lparr> password = '''', hint = '''' \<rparr>"

text \<open>
  Modelled from the spec: what the session cache knows for a path. The cache of
  \<^verbatim>\<open>SessionPasswordService\<close> maps a path to a password and hint, and a lookup yields
  the empty sentinel when nothing is known for the path.
\<close>

definition lookup :: "world \<Rightarrow> string \<Rightarrow> PasswordAndHint" where
  "lookup w p = (case cache w p of None \<Rightarrow> blank | Some pwh \<Rightarrow> pwh)"

text \<open>
  Modelled from the spec: \<^verbatim>\<open>SessionPasswordService.getByPathAsync\<close>, whose source is
  not part of the embedded file. It queries the cache and does not change it.
\<close>

definition getByPathAsync :: "string \<Rightarrow> world \<Rightarrow> PasswordAndHint \<times> world" where
  "getByPathAsync p w = (lookup w p, log (EvGetByPath p) w)"

text \<open>
  Modelled from the spec: \<^verbatim>\<open>SessionPasswordService.putByFile\<close>, whose source is not
  part of the embedded file. It remembers the password against the path the file has at
  the moment of the call.
\<close>

definition putByFile :: "PasswordAndHint \<Rightarrow> fid \<Rightarrow> world \<Rightarrow> world" where
  "putByFile pw file w =
     log (EvPutByFile pw file) (w\<lparr>cache := (cache w)(file_path w file \<mapsto> pw)\<rparr>)"

section \<open>Password resolver\<close>

definition openModal ::
  "'e env \<Rightarrow> string \<Rightarrow> bool \<Rightarrow> bool \<Rightarrow> PasswordAndHint \<Rightarrow> world \<Rightarrow> PasswordAndHint option \<times> world"
where
  "openModal env title isEncrypting confirmPassword seed w =
     (openAsync env w title isEncrypting confirmPassword seed,
      log (EvOpenModal title isEncrypting confirmPassword seed) w)"

text \<open>The result \<open>None\<close> is the \<^verbatim>\<open>null\<close> of the source: the user cancelled.\<close>

definition promptPasswordForFolder ::
  "'e env \<Rightarrow> string \<Rightarrow> bool \<Rightarrow> string \<Rightarrow> world \<Rightarrow> PasswordAndHint option \<times> world"
where
  "promptPasswordForFolder env title isEncrypting defaultPath w =
     (if level w = LevelExternalFile then
        (case getByPathAsync defaultPath w of (pwh, w1) \<Rightarrow> (Some pwh, w1))
      else
        (case getByPathAsync defaultPath w of (pwh, w1) \<Rightarrow>
           if password pwh = '''' then
             (case openModal env title isEncrypting isEncrypting pwh w1 of
                (None, w2) \<Rightarrow> (None, w2)
              | (Some entered, w2) \<Rightarrow> (Some entered, w2))
           else (Some pwh, w1)))"

section \<open>Storage and view collaborators\<close>

text \<open>
  A storage call that fails throws and leaves the vault as it was; one that succeeds
  changes the one file it names. A rename changes the path of the file object in place.
\<close>

definition read :: "'e env \<Rightarrow> fid \<Rightarrow> world \<Rightarrow> (exn + string) \<times> world" where
  "read env file w =
     (if read_fails env w file then (Inl StorageFailed, log (EvRead file) w)
      else (Inr (file_data w file), log (EvRead file) w))"

definition renameFile :: "'e env \<Rightarrow> fid \<Rightarrow> string \<Rightarrow> world \<Rightarrow> (exn + unit) \<times> world" where
  "renameFile env file newPath w =
     (if rename_fails env w file newPath then (Inl StorageFailed, log (EvRename file newPath) w)
      else (Inr (), log (EvRename file newPath) (w\<lparr>file_path := (file_path w)(file := newPath)\<rparr>)))"

definition modify :: "'e env \<Rightarrow> fid \<Rightarrow> string \<Rightarrow> world \<Rightarrow> (exn + unit) \<times> world" where
  "modify env file content w =
     (if modify_fails env w file content then (Inl StorageFailed, log (EvModify file content) w)
      else (Inr (), log (EvModify file content) (w\<lparr>file_data := (file_data w)(file := content)\<rparr>)))"

text \<open>
  The calls on views and leaves return normally: the error taxonomy has no fault of the
  view collaborator.

  The condition of the leaf callback:
  \<^verbatim>\<open>l.view instanceof TextFileView && l.view.file === file\<close>.
\<close>

definition is_view_of :: "fid \<Rightarrow> view \<Rightarrow> bool" where
  "is_view_of file v =
     (case v of EncryptedMarkdownView g \<Rightarrow> g = Some file
              | TextFileView g \<Rightarrow> g = Some file
              | OtherView \<Rightarrow> False)"

text \<open>
  Modelled from the spec: \<^verbatim>\<open>EncryptedMarkdownView.detachSafely\<close>, whose source is not
  part of the embedded file: the view's own teardown, after which the view is detached.
\<close>

definition detachSafely :: "view \<Rightarrow> world \<Rightarrow> world" where
  "detachSafely l w = log (EvDetachSafely l) (w\<lparr>leaves := remove1 l (leaves w)\<rparr>)"

definition detach :: "view \<Rightarrow> world \<Rightarrow> world" where
  "detach l w = log (EvDetach l) (w\<lparr>leaves := remove1 l (leaves w)\<rparr>)"

text \<open>
  \<^verbatim>\<open>getLeaf(true).openFile(file)\<close>: a new leaf, showing the file in the view registered
  for the extension it has by then.
\<close>

definition openFile :: "'e env \<Rightarrow> fid \<Rightarrow> world \<Rightarrow> world" where
  "openFile env file w =
     log (EvOpenFile file)
       (w\<lparr>leaves := leaves w @
          [if extension w file \<in> set (ENCRYPTED_FILE_EXTENSIONS env)
           then EncryptedMarkdownView (Some file) else TextFileView (Some file)]\<rparr>)"

section \<open>File transform engine\<close>

text \<open>
  \<^verbatim>\<open>iterateAllLeaves\<close> with the callback of the source, over the leaves present when
  the iteration starts; the flag is \<^verbatim>\<open>didDetach\<close>.
\<close>

fun iterateAllLeaves :: "fid \<Rightarrow> view list \<Rightarrow> bool \<times> world \<Rightarrow> bool \<times> world" where
  "iterateAllLeaves file [] (didDetach, w) = (didDetach, w)"
| "iterateAllLeaves file (l # ls) (didDetach, w) =
     (if is_view_of file l then
        (case l of
           EncryptedMarkdownView g \<Rightarrow> iterateAllLeaves file ls (True, detachSafely l w)
         | _ \<Rightarrow> iterateAllLeaves file ls (True, detach l w))
      else iterateAllLeaves file ls (didDetach, w))"

text \<open>The \<^verbatim>\<open>try\<close> block of \<^verbatim>\<open>closeUpdateRememberPasswordThenReopen\<close>.\<close>

definition renameModifyRemember ::
  "'e env \<Rightarrow> fid \<Rightarrow> string \<Rightarrow> string \<Rightarrow> PasswordAndHint \<Rightarrow> world \<Rightarrow> (exn + unit) \<times> world"
where
  "renameModifyRemember env file newFileExtension content pw w =
     (let newFilepath = getFilePathWithNewExtension w file newFileExtension
      in case renameFile env file newFilepath w of
           (Inl e, w1) \<Rightarrow> (Inl e, w1)
         | (Inr u, w1) \<Rightarrow>
             (case modify env file content w1 of
                (Inl e, w2) \<Rightarrow> (Inl e, w2)
              | (Inr u', w2) \<Rightarrow> (Inr (), putByFile pw file w2)))"

text \<open>The \<^verbatim>\<open>finally\<close> block runs whatever the \<^verbatim>\<open>try\<close> block returned or threw.\<close>

definition closeUpdateRememberPasswordThenReopen ::
  "'e env \<Rightarrow> fid \<Rightarrow> string \<Rightarrow> string \<Rightarrow> PasswordAndHint \<Rightarrow> world \<Rightarrow> (exn + unit) \<times> world"
where
  "closeUpdateRememberPasswordThenReopen env file newFileExtension content pw w =
     (case iterateAllLeaves file (leaves w) (False, w) of (didDetach, w1) \<Rightarrow>
        (case renameModifyRemember env file newFileExtension content pw w1 of (r, w2) \<Rightarrow>
           (r, if didDetach then openFile env file w2 else w2)))"

definition encryptFile ::
  "'e env \<Rightarrow> fid \<Rightarrow> PasswordAndHint \<Rightarrow> world \<Rightarrow> (exn + string) \<times> world"
where
  "encryptFile env file passwordAndHint w =
     (case read env file w of
        (Inl e, w1) \<Rightarrow> (Inl e, w1)
      | (Inr content, w1) \<Rightarrow>
          (case encrypt env w1 (password passwordAndHint) (hint passwordAndHint) content of
             Inl e \<Rightarrow> (Inl e, w1)
           | Inr encryptedData \<Rightarrow> (Inr (encode env encryptedData), w1)))"

text \<open>The result \<open>Inr None\<close> is the \<^verbatim>\<open>null\<close> of the decryption collaborator.\<close>

definition decryptFile ::
  "'e env \<Rightarrow> fid \<Rightarrow> string \<Rightarrow> world \<Rightarrow> (exn + string option) \<times> world"
where
  "decryptFile env file pass w =
     (case read env file w of
        (Inl e, w1) \<Rightarrow> (Inl e, w1)
      | (Inr encryptedFileContent, w1) \<Rightarrow>
          (case decode env encryptedFileContent of
             Inl e \<Rightarrow> (Inl e, w1)
           | Inr encryptedData \<Rightarrow> (decrypt env encryptedData pass, w1)))"

section \<open>Batch orchestrator\<close>

definition Notice :: "string \<Rightarrow> world \<Rightarrow> world" where
  "Notice msg w = w\<lparr>notices := notices w @ [msg]\<rparr>"

text \<open>A number inside a template string: its decimal digits.\<close>

definition digit :: "nat \<Rightarrow> char" where
  "digit d = char_of (48 + d)"

fun decimal :: "nat \<Rightarrow> string" where
  "decimal n = (if n < 10 then [digit n] else decimal (n div 10) @ [digit (n mod 10)])"

declare decimal.simps [simp del]

text \<open>The \<^verbatim>\<open>try\<close> block of the loop of \<^verbatim>\<open>processEncryptFolder\<close>.\<close>

definition encryptOne ::
  "'e env \<Rightarrow> fid \<Rightarrow> PasswordAndHint \<Rightarrow> world \<Rightarrow> (exn + unit) \<times> world"
where
  "encryptOne env file pwh w =
     (case encryptFile env file pwh w of
        (Inl e, w1) \<Rightarrow> (Inl e, w1)
      | (Inr encryptedContent, w1) \<Rightarrow>
          closeUpdateRememberPasswordThenReopen env file (ENCRYPTED_FILE_EXTENSION_DEFAULT env)
            encryptedContent pwh w1)"

text \<open>The \<^verbatim>\<open>try\<close> block of the loop of \<^verbatim>\<open>processDecryptFolder\<close>.\<close>

definition decryptOne ::
  "'e env \<Rightarrow> fid \<Rightarrow> PasswordAndHint \<Rightarrow> world \<Rightarrow> (exn + unit) \<times> world"
where
  "decryptOne env file pwh w =
     (case decryptFile env file (password pwh) w of
        (Inl e, w1) \<Rightarrow> (Inl e, w1)
      | (Inr None, w1) \<Rightarrow> (Inl DecryptFailed, w1)
      | (Inr (Some decryptedContent), w1) \<Rightarrow>
          closeUpdateRememberPasswordThenReopen env file ''md'' decryptedContent pwh w1)"

text \<open>
  The two \<^verbatim>\<open>for\<close> loops with their \<^verbatim>\<open>catch\<close> clauses. The state of a loop is the
  pair of counters \<^verbatim>\<open>ok\<close> and \<^verbatim>\<open>fail\<close> and the world.
\<close>

fun encryptLoop ::
  "'e env \<Rightarrow> PasswordAndHint \<Rightarrow> fid list \<Rightarrow> nat \<times> nat \<times> world \<Rightarrow> nat \<times> nat \<times> world"
where
  "encryptLoop env pwh [] (ok, fail, w) = (ok, fail, w)"
| "encryptLoop env pwh (file # files) (ok, fail, w) =
     (case encryptOne env file pwh w of
        (Inr u, w1) \<Rightarrow> encryptLoop env pwh files (ok + 1, fail, w1)
      | (Inl err, w1) \<Rightarrow>
          encryptLoop env pwh files
            (ok, fail + 1, log (EvConsoleError ''Failed to encrypt'' (file_path w1 file)) w1))"

fun decryptLoop ::
  "'e env \<Rightarrow> PasswordAndHint \<Rightarrow> fid list \<Rightarrow> nat \<times> nat \<times> world \<Rightarrow> nat \<times> nat \<times> world"
where
  "decryptLoop env pwh [] (ok, fail, w) = (ok, fail, w)"
| "decryptLoop env pwh (file # files) (ok, fail, w) =
     (case decryptOne env file pwh w of
        (Inr u, w1) \<Rightarrow> decryptLoop env pwh files (ok + 1, fail, w1)
      | (Inl err, w1) \<Rightarrow>
          decryptLoop env pwh files
            (ok, fail + 1, log (EvConsoleError ''Failed to decrypt'' (file_path w1 file)) w1))"

definition quoted :: "string \<Rightarrow> string" where
  "quoted s = [CHR 0x22] @ s @ [CHR 0x22]"

definition processEncryptFolder :: "'e env \<Rightarrow> TFolder \<Rightarrow> world \<Rightarrow> world" where
  "processEncryptFolder env folder w =
     (let files = getMarkdownFiles w folder
      in if length files = 0 then Notice ''No markdown files to encrypt in this folder.'' w
         else
           (case promptPasswordForFolder env (''Encrypt Folder '' @ quoted (name folder)) True
                   (path folder) w of
              (None, w1) \<Rightarrow> w1
            | (Some pwh, w1) \<Rightarrow>
                (case encryptLoop env pwh files (0, 0, w1) of (ok, fail, w2) \<Rightarrow>
                   Notice (''Folder encrypted: '' @ decimal ok @ '' ok, '' @ decimal fail
                           @ '' failed'') w2)))"

definition processDecryptFolder :: "'e env \<Rightarrow> TFolder \<Rightarrow> world \<Rightarrow> world" where
  "processDecryptFolder env folder w =
     (let files = getEncryptedFiles env w folder
      in if length files = 0 then Notice ''No encrypted files to decrypt in this folder.'' w
         else
           (case promptPasswordForFolder env (''Decrypt Folder '' @ quoted (name folder)) False
                   (path folder) w of
              (None, w1) \<Rightarrow> w1
            | (Some pwh, w1) \<Rightarrow>
                (case decryptLoop env pwh files (0, 0, w1) of (ok, fail, w2) \<Rightarrow>
                   Notice (''Folder decrypted: '' @ decimal ok @ '' ok, '' @ decimal fail
                           @ '' failed'') w2)))"

section \<open>Notions used to state the properties\<close>

text \<open>The call by which the leaf callback closes a view: the safe teardown for the
  plugin's own view, the plain detach of the leaf for any other.\<close>

definition detach_event :: "view \<Rightarrow> event" where
  "detach_event l = (case l of EncryptedMarkdownView g \<Rightarrow> EvDetachSafely l | _ \<Rightarrow> EvDetach l)"

text \<open>The detach calls for all the views that are open on a file, in leaf order.\<close>

definition detach_calls :: "fid \<Rightarrow> world \<Rightarrow> event list" where
  "detach_calls file w = map detach_event (filter (is_view_of file) (leaves w))"

definition is_read :: "event \<Rightarrow> bool" where
  "is_read e = (case e of EvRead f \<Rightarrow> True | _ \<Rightarrow> False)"

definition is_console_error :: "event \<Rightarrow> bool" where
  "is_console_error e = (case e of EvConsoleError m p \<Rightarrow> True | _ \<Rightarrow> False)"

definition is_detach :: "event \<Rightarrow> bool" where
  "is_detach e = (case e of EvDetach l \<Rightarrow> True | EvDetachSafely l \<Rightarrow> True | _ \<Rightarrow> False)"

definition is_open :: "event \<Rightarrow> bool" where
  "is_open e = (case e of EvOpenFile f \<Rightarrow> True | _ \<Rightarrow> False)"

text \<open>The calls that read, rename or write a file.\<close>

definition touches_file :: "event \<Rightarrow> bool" where
  "touches_file e =
     (case e of EvRead f \<Rightarrow> True | EvRename f p \<Rightarrow> True | EvModify f c \<Rightarrow> True | _ \<Rightarrow> False)"

text \<open>The summary notification of a batch.\<close>

definition summary :: "string \<Rightarrow> nat \<Rightarrow> nat \<Rightarrow> string" where
  "summary verb n m = ''Folder '' @ verb @ '': '' @ decimal n @ '' ok, '' @ decimal m @ '' failed''"

subsection \<open>The reference algorithm of the password resolver\<close>

datatype intent = Encrypting | Decrypting

datatype outcome = Cancelled | Resolved PasswordAndHint

text \<open>The title under which each command opens the prompt.\<close>

definition batch_title :: "intent \<Rightarrow> TFolder \<Rightarrow> string" where
  "batch_title i directory =
     (case i of Encrypting \<Rightarrow> ''Encrypt Folder '' @ quoted (name directory)
              | Decrypting \<Rightarrow> ''Decrypt Folder '' @ quoted (name directory))"

text \<open>
  The resolver as the specification words it, with the calls it makes to the cache and
  to the prompt. At level \<open>ExternalFile\<close> the lookup for the directory's path is the
  answer and nothing is prompted. Otherwise a cached non-empty password is the answer,
  again with no prompt. Otherwise one prompt is opened, seeded with the cached value and
  asking for confirmation iff the intent is \<open>Encrypting\<close>; the user's cancellation is
  the outcome \<open>Cancelled\<close>.
\<close>

definition resolve :: "'e env \<Rightarrow> TFolder \<Rightarrow> intent \<Rightarrow> world \<Rightarrow> outcome \<times> event list" where
  "resolve env directory i w =
     (let cached = lookup w (path directory);
          looked_up = [EvGetByPath (path directory)];
          confirm = (i = Encrypting)
      in if level w = LevelExternalFile then (Resolved cached, looked_up)
         else if password cached \<noteq> '''' then (Resolved cached, looked_up)
         else
           (case openAsync env (w\<lparr>events := events w @ looked_up\<rparr>)
                   (batch_title i directory) (i = Encrypting) confirm cached of
              None \<Rightarrow> Cancelled
            | Some entered \<Rightarrow> Resolved entered,
            looked_up @ [EvOpenModal (batch_title i directory) (i = Encrypting) confirm cached]))"

definition answer :: "outcome \<Rightarrow> PasswordAndHint option" where
  "answer out = (case out of Cancelled \<Rightarrow> None | Resolved pwh \<Rightarrow> Some pwh)"

subsection \<open>The two commands as one batch\<close>

text \<open>
  The two folder commands differ in the scanner, the per-file transform and the words of
  their notifications. The following definitions select the command by its intent, so
  that a property of every batch is stated once.
\<close>

definition eligible :: "'e env \<Rightarrow> intent \<Rightarrow> world \<Rightarrow> TFolder \<Rightarrow> fid list" where
  "eligible env i w folder =
     (case i of Encrypting \<Rightarrow> getMarkdownFiles w folder
              | Decrypting \<Rightarrow> getEncryptedFiles env w folder)"

definition processFolder :: "'e env \<Rightarrow> intent \<Rightarrow> TFolder \<Rightarrow> world \<Rightarrow> world" where
  "processFolder env i folder w =
     (case i of Encrypting \<Rightarrow> processEncryptFolder env folder w
              | Decrypting \<Rightarrow> processDecryptFolder env folder w)"

definition transformOne ::
  "'e env \<Rightarrow> intent \<Rightarrow> fid \<Rightarrow> PasswordAndHint \<Rightarrow> world \<Rightarrow> (exn + unit) \<times> world"
where
  "transformOne env i file pwh w =
     (case i of Encrypting \<Rightarrow> encryptOne env file pwh w
              | Decrypting \<Rightarrow> decryptOne env file pwh w)"

definition batchLoop ::
  "'e env \<Rightarrow> intent \<Rightarrow> PasswordAndHint \<Rightarrow> fid list \<Rightarrow> nat \<times> nat \<times> world \<Rightarrow> nat \<times> nat \<times> world"
where
  "batchLoop env i pwh files s =
     (case i of Encrypting \<Rightarrow> encryptLoop env pwh files s
              | Decrypting \<Rightarrow> decryptLoop env pwh files s)"

definition failure_message :: "intent \<Rightarrow> string" where
  "failure_message i =
     (case i of Encrypting \<Rightarrow> ''Failed to encrypt'' | Decrypting \<Rightarrow> ''Failed to decrypt'')"

definition verb :: "intent \<Rightarrow> string" where
  "verb i = (case i of Encrypting \<Rightarrow> ''encrypted'' | Decrypting \<Rightarrow> ''decrypted'')"

definition nothing_to_do :: "intent \<Rightarrow> string" where
  "nothing_to_do i =
     ''No '' @ (case i of Encrypting \<Rightarrow> ''markdown'' | Decrypting \<Rightarrow> ''encrypted'')
       @ '' files to '' @ (case i of Encrypting \<Rightarrow> ''encrypt'' | Decrypting \<Rightarrow> ''decrypt'')
       @ '' in this folder.''"

subsection \<open>The phases of a per-file transform\<close>

text \<open>The world once every view that is open on the file has been closed.\<close>

definition detached :: "fid \<Rightarrow> world \<Rightarrow> world" where
  "detached file w =
     w\<lparr>leaves := filter (\<lambda>l. \<not> is_view_of file l) (leaves w),
       events := events w @ detach_calls file w\<rparr>"

definition has_view :: "fid \<Rightarrow> world \<Rightarrow> bool" where
  "has_view file w = list_ex (is_view_of file) (leaves w)"

text \<open>The calls of the try block: the rename, then the write, then the cache entry.\<close>

definition update_calls :: "world \<Rightarrow> fid \<Rightarrow> string \<Rightarrow> string \<Rightarrow> PasswordAndHint \<Rightarrow> event list" where
  "update_calls w file ext content pw =
     [EvRename file (getFilePathWithNewExtension w file ext), EvModify file content,
      EvPutByFile pw file]"



section \<open>An example vault\<close>

text \<open>
  Two notes and an encrypted note under \<open>notes\<close>, a note elsewhere; \<open>b.md\<close> is open in
  two leaves. The example collaborators keep the password next to the text, and the
  storage refuses every write to \<open>b.md\<close>.
\<close>

definition vault0 :: world where
  "vault0 = \<lparr> getFiles = [0, 1, 2, 3],
      file_path = (\<lambda>f. if f = 0 then ''notes/a.md'' else if f = 1 then ''notes/b.md''
                        else if f = 2 then ''notes/sub/c.mdenc'' else ''other/d.md''),
      file_data = (\<lambda>f. if f = 0 then ''alpha'' else if f = 1 then ''beta''
                        else if f = 2 then ''pw#gamma'' else ''delta''),
      leaves = [TextFileView (Some 1), OtherView, TextFileView (Some 0), TextFileView (Some 1)],
      level = LevelPerFile,
      cache = (\<lambda>p. None),
      notices = [],
      events = [] \<rparr>"

definition notes_dir :: TFolder where
  "notes_dir = \<lparr> path = ''notes'', name = ''notes'' \<rparr>"

definition other_dir :: TFolder where
  "other_dir = \<lparr> path = ''other'', name = ''other'' \<rparr>"

definition pw0 :: PasswordAndHint where
  "pw0 = \<lparr> password = ''pw'', hint = ''h'' \<rparr>"

definition env0 :: "(string \<times> string) env" where
  "env0 = \<lparr> ENCRYPTED_FILE_EXTENSIONS = [''mdenc'', ''encrypted''],
      ENCRYPTED_FILE_EXTENSION_DEFAULT = ''mdenc'',
      read_fails = (\<lambda>w f. False),
      rename_fails = (\<lambda>w f p. False),
      modify_fails = (\<lambda>w f c. f = 1),
      encrypt = (\<lambda>w p h c. Inr (p, c)),
      encode = (\<lambda>(p, c). p @ ''#'' @ c),
      decode = (\<lambda>s. if CHR ''#'' \<in> set s
                     then Inr (takeWhile (\<lambda>c. c \<noteq> CHR ''#'') s, tl (dropWhile (\<lambda>c. c \<noteq> CHR ''#'') s))
                     else Inl MalformedEnvelope),
      decrypt = (\<lambda>(p, c) q. Inr (if q = p then Some c else None)),
      openAsync = (\<lambda>w title isEncrypting confirmPassword seed. Some pw0) \<rparr>"

text \<open>The same collaborators with a user who dismisses the prompt.\<close>

definition env_cancel :: "(string \<times> string) env" where
  "env_cancel = env0\<lparr>openAsync := (\<lambda>w title isEncrypting confirmPassword seed. None)\<rparr>"

section \<open>The scanner selects by prefix and extension\<close>

lemma startsWith_iff: "startsWith s p \<longleftrightarrow> (\<exists>rest. s = p @ rest)"
  by (induction s p rule: startsWith.induct) auto

lemma getFilesRecursively_iff:
  "f \<in> set (getFilesRecursively w folder) \<longleftrightarrow>
     f \<in> set (getFiles w)
     \<and> (path folder = [] \<or> (\<exists>rest. file_path w f = path folder @ ''/'' @ rest))"
  by (auto simp: getFilesRecursively_def startsWith_iff Let_def)

text \<open>
  Below a directory that is not the root, the scanner selects the files of the listing
  that lie in the directory and have the extension of the direction.
\<close>

lemma scanner_selects_in_directory:
  assumes "path folder \<noteq> []" and "\<not> isRoot folder"
  shows "f \<in> set (getMarkdownFiles w folder) \<longleftrightarrow>
           f \<in> set (getFiles w) \<and> belongs_to w f folder \<and> extension w f = ''md''"
    and "f \<in> set (getEncryptedFiles env w folder) \<longleftrightarrow>
           f \<in> set (getFiles w) \<and> belongs_to w f folder
             \<and> extension w f \<in> set (ENCRYPTED_FILE_EXTENSIONS env)"
  using assms
  by (auto simp: getMarkdownFiles_def getEncryptedFiles_def getFilesRecursively_iff
      belongs_to_def)

section \<open>The resolver and the short ways out of a batch\<close>

lemma prompt_None:
  assumes "promptPasswordForFolder env title enc p w = (None, w1)"
  shows "w1 = w\<lparr>events := events w @ [EvGetByPath p, EvOpenModal title enc enc (lookup w p)]\<rparr>"
  using assms
  by (auto simp: promptPasswordForFolder_def getByPathAsync_def openModal_def
      log_def split: option.splits if_splits)

lemma prompt_frame:
  assumes "promptPasswordForFolder env title enc p w = (r, w1)"
  shows "\<exists>calls. w1 = w\<lparr>events := events w @ calls\<rparr> \<and> \<not> list_ex touches_file calls"
  using assms
  by (auto simp: promptPasswordForFolder_def getByPathAsync_def openModal_def touches_file_def
      log_def split: option.splits if_splits)

section \<open>Replacing the extension of a path\<close>














section \<open>The per-file transform, phase by phase\<close>

lemma fold_remove1_filter:
  "\<forall>y\<in>set ys. \<not> P y \<Longrightarrow> fold remove1 (filter P xs) (ys @ xs) = ys @ filter (\<lambda>x. \<not> P x) xs"
proof (induction xs arbitrary: ys)
  case Nil
  then show ?case by simp
next
  case (Cons x xs)
  show ?case
  proof (cases "P x")
    case True
    with Cons.prems have "x \<notin> set ys" by auto
    then have "remove1 x (ys @ x # xs) = ys @ xs" by (simp add: remove1_append)
    with True Cons.IH [OF Cons.prems] show ?thesis by simp
  next
    case False
    with Cons.prems have "\<forall>y\<in>set (ys @ [x]). \<not> P y" by auto
    from Cons.IH [OF this] False show ?thesis by simp
  qed
qed

lemma iterate_leaves:
  "iterateAllLeaves file ls (d, w) =
     (d \<or> list_ex (is_view_of file) ls,
      w\<lparr>leaves := fold remove1 (filter (is_view_of file) ls) (leaves w),
        events := events w @ map detach_event (filter (is_view_of file) ls)\<rparr>)"
proof (induction ls arbitrary: d w)
  case Nil
  then show ?case by simp
next
  case (Cons l ls)
  then show ?case
    by (cases l) (simp_all add: detach_def detachSafely_def log_def detach_event_def)
qed

lemma iterate_all:
  "iterateAllLeaves file (leaves w) (False, w) = (has_view file w, detached file w)"
  using fold_remove1_filter [of "[]" "is_view_of file" "leaves w"]
  by (simp add: iterate_leaves detached_def detach_calls_def has_view_def)

lemma closeUpdate_unfold:
  "closeUpdateRememberPasswordThenReopen env file ext content pw w =
     (case renameModifyRemember env file ext content pw (detached file w) of
        (r, w2) \<Rightarrow> (r, if has_view file w then openFile env file w2 else w2))"
  by (simp add: closeUpdateRememberPasswordThenReopen_def iterate_all)

lemma new_path_detached [simp]:
  "getFilePathWithNewExtension (detached file w) g ext = getFilePathWithNewExtension w g ext"
  by (simp add: getFilePathWithNewExtension_def detached_def)

lemma renameModifyRemember_cases:
  assumes "renameModifyRemember env file ext content pw w = (r, w')"
  obtains
    (rename_failed) "rename_fails env w file (getFilePathWithNewExtension w file ext)"
      "r = Inl StorageFailed"
      "w' = w\<lparr>events := events w @ [EvRename file (getFilePathWithNewExtension w file ext)]\<rparr>"
  | (modify_failed) "r = Inl StorageFailed"
      "w' = w\<lparr>file_path := (file_path w)(file := getFilePathWithNewExtension w file ext),
              events := events w @ [EvRename file (getFilePathWithNewExtension w file ext),
                                    EvModify file content]\<rparr>"
  | (remembered) "r = Inr ()"
      "w' = w\<lparr>file_path := (file_path w)(file := getFilePathWithNewExtension w file ext),
              file_data := (file_data w)(file := content),
              cache := (cache w)(getFilePathWithNewExtension w file ext \<mapsto> pw),
              events := events w @ [EvRename file (getFilePathWithNewExtension w file ext),
                                    EvModify file content, EvPutByFile pw file]\<rparr>"
  using assms
  by (auto simp: renameModifyRemember_def renameFile_def modify_def putByFile_def log_def Let_def
      split: if_splits)

lemma is_open_detach_calls [simp]: "filter is_open (detach_calls file w) = []"
  by (auto simp: detach_calls_def is_open_def detach_event_def filter_empty_conv split: view.splits)

lemma is_read_detach_calls [simp]: "filter is_read (detach_calls file w) = []"
  by (auto simp: detach_calls_def is_read_def detach_event_def filter_empty_conv split: view.splits)

lemma is_console_error_detach_calls [simp]: "filter is_console_error (detach_calls file w) = []"
  by (auto simp: detach_calls_def is_console_error_def detach_event_def filter_empty_conv
      split: view.splits)

lemma is_detach_detach_event [simp]: "is_detach (detach_event l)"
  by (cases l) (simp_all add: is_detach_def detach_event_def)

lemma is_detach_detach_calls: "list_ex is_detach (detach_calls file w) = has_view file w"
  by (auto simp: detach_calls_def has_view_def list_ex_iff)

lemma no_view_filter: "\<not> has_view file w \<Longrightarrow> filter (\<lambda>l. \<not> is_view_of file l) (leaves w) = leaves w"
  by (simp add: has_view_def list_ex_iff filter_id_conv)

lemma no_view_detached: "\<not> has_view file (detached file w)"
  by (simp add: has_view_def detached_def list_ex_iff)

lemma opened_is_view:
  "is_view_of file (if c then EncryptedMarkdownView (Some file) else TextFileView (Some file))"
  by (simp add: is_view_of_def)

text \<open>What one call of the transform leaves behind, whichever way it ends.\<close>

lemma closeUpdate_effect:
  assumes "closeUpdateRememberPasswordThenReopen env file ext content pw w = (r, w')"
  shows "\<exists>n \<in> {1, 2, 3}.
           events w' = events w @ detach_calls file w @ take n (update_calls w file ext content pw)
             @ (if has_view file w then [EvOpenFile file] else [])
           \<and> (r = Inr () \<longleftrightarrow> n = 3)
           \<and> file_path w' = (if 2 \<le> n then (file_path w)(file := getFilePathWithNewExtension w file ext)
                              else file_path w)
           \<and> file_data w' = (if n = 3 then (file_data w)(file := content) else file_data w)
           \<and> cache w' = (if n = 3 then (cache w)(getFilePathWithNewExtension w file ext \<mapsto> pw)
                          else cache w)"
    and "notices w' = notices w"
    and "leaves w' = filter (\<lambda>l. \<not> is_view_of file l) (leaves w)
           @ (if has_view file w
              then [if extension w' file \<in> set (ENCRYPTED_FILE_EXTENSIONS env)
                    then EncryptedMarkdownView (Some file) else TextFileView (Some file)]
              else [])"
proof -
  obtain w2 where t: "renameModifyRemember env file ext content pw (detached file w) = (r, w2)"
    and w': "w' = (if has_view file w then openFile env file w2 else w2)"
    using assms by (auto simp: closeUpdate_unfold split: prod.splits)
  from t have "(\<exists>n \<in> {1, 2, 3}.
           events w' = events w @ detach_calls file w @ take n (update_calls w file ext content pw)
             @ (if has_view file w then [EvOpenFile file] else [])
           \<and> (r = Inr () \<longleftrightarrow> n = 3)
           \<and> file_path w' = (if 2 \<le> n then (file_path w)(file := getFilePathWithNewExtension w file ext)
                              else file_path w)
           \<and> file_data w' = (if n = 3 then (file_data w)(file := content) else file_data w)
           \<and> cache w' = (if n = 3 then (cache w)(getFilePathWithNewExtension w file ext \<mapsto> pw)
                          else cache w))
      \<and> notices w' = notices w
      \<and> leaves w' = filter (\<lambda>l. \<not> is_view_of file l) (leaves w)
           @ (if has_view file w
              then [if extension w' file \<in> set (ENCRYPTED_FILE_EXTENSIONS env)
                    then EncryptedMarkdownView (Some file) else TextFileView (Some file)]
              else [])"
  proof (cases rule: renameModifyRemember_cases)
    case rename_failed
    then show ?thesis
      using w' by (simp add: detached_def openFile_def log_def update_calls_def extension_def
          getFilePathWithNewExtension_def)
  next
    case modify_failed
    then show ?thesis
      using w' by (simp add: detached_def openFile_def log_def update_calls_def extension_def
          getFilePathWithNewExtension_def)
  next
    case remembered
    then show ?thesis
      using w' by (simp add: detached_def openFile_def log_def update_calls_def extension_def
          getFilePathWithNewExtension_def)
  qed
  then show "\<exists>n \<in> {1, 2, 3}.
           events w' = events w @ detach_calls file w @ take n (update_calls w file ext content pw)
             @ (if has_view file w then [EvOpenFile file] else [])
           \<and> (r = Inr () \<longleftrightarrow> n = 3)
           \<and> file_path w' = (if 2 \<le> n then (file_path w)(file := getFilePathWithNewExtension w file ext)
                              else file_path w)
           \<and> file_data w' = (if n = 3 then (file_data w)(file := content) else file_data w)
           \<and> cache w' = (if n = 3 then (cache w)(getFilePathWithNewExtension w file ext \<mapsto> pw)
                          else cache w)"
    and "notices w' = notices w"
    and "leaves w' = filter (\<lambda>l. \<not> is_view_of file l) (leaves w)
           @ (if has_view file w
              then [if extension w' file \<in> set (ENCRYPTED_FILE_EXTENSIONS env)
                    then EncryptedMarkdownView (Some file) else TextFileView (Some file)]
              else [])"
    by blast+
qed

lemma take_update_calls_not_open:
  "n \<in> {1, 2, 3} \<Longrightarrow> filter is_open (take n (update_calls w file ext content pw)) = []"
  by (auto simp: update_calls_def is_open_def)

lemma take_update_calls_not_detach:
  "n \<in> {1, 2, 3} \<Longrightarrow> \<not> list_ex is_detach (take n (update_calls w file ext content pw))"
  by (auto simp: update_calls_def is_detach_def)




section \<open>The loops of the two commands\<close>

lemma closeUpdate_reads_nothing:
  assumes "closeUpdateRememberPasswordThenReopen env file ext content pw w = (r, w')"
  shows "\<exists>calls. events w' = events w @ calls \<and> filter is_read calls = []
           \<and> filter is_console_error calls = []"
proof -
  from closeUpdate_effect(1) [OF assms] obtain n where "n \<in> {1, 2, 3}"
    and "events w' = events w @ detach_calls file w @ take n (update_calls w file ext content pw)
             @ (if has_view file w then [EvOpenFile file] else [])"
    by blast
  then show ?thesis
    by (auto simp: update_calls_def is_read_def is_console_error_def)
qed

lemma transformOne_calls:
  assumes "transformOne env i file pwh w = (r, w')"
  shows "\<exists>calls. events w' = events w @ calls \<and> filter is_read calls = [EvRead file]
           \<and> filter is_console_error calls = []"
    and "notices w' = notices w"
proof -
  have "(\<exists>calls. events w' = events w @ calls \<and> filter is_read calls = [EvRead file]
           \<and> filter is_console_error calls = []) \<and> notices w' = notices w"
  proof (cases "w' = log (EvRead file) w")
    case True
    then show ?thesis by (simp add: log_def is_read_def is_console_error_def)
  next
    case False
    with assms obtain ext content where
      c: "closeUpdateRememberPasswordThenReopen env file ext content pwh (log (EvRead file) w) = (r, w')"
      by (cases i) (auto simp: transformOne_def encryptOne_def encryptFile_def decryptOne_def
          decryptFile_def read_def split: if_splits sum.splits option.splits)
    from closeUpdate_reads_nothing [OF c] closeUpdate_effect(2) [OF c] show ?thesis
      by (auto simp: log_def is_read_def is_console_error_def)
  qed
  then show "\<exists>calls. events w' = events w @ calls \<and> filter is_read calls = [EvRead file]
           \<and> filter is_console_error calls = []"
    and "notices w' = notices w"
    by blast+
qed

lemma batchLoop_Nil [simp]: "batchLoop env i pwh [] (ok, fail, w) = (ok, fail, w)"
  by (cases i) (simp_all add: batchLoop_def)

lemma batchLoop_Cons:
  "batchLoop env i pwh (file # files) (ok, fail, w) =
     (case transformOne env i file pwh w of
        (Inr u, w1) \<Rightarrow> batchLoop env i pwh files (ok + 1, fail, w1)
      | (Inl err, w1) \<Rightarrow>
          batchLoop env i pwh files
            (ok, fail + 1, log (EvConsoleError (failure_message i) (file_path w1 file)) w1))"
  by (cases i) (simp_all add: batchLoop_def transformOne_def failure_message_def
      split: prod.splits sum.splits)

lemma batchLoop_counts:
  assumes "batchLoop env i pwh files (ok, fail, w) = (ok', fail', w')"
  shows "\<exists>calls. events w' = events w @ calls
           \<and> filter is_read calls = map EvRead files
           \<and> fail' = fail + length (filter is_console_error calls)
           \<and> ok' + fail' = ok + fail + length files
           \<and> notices w' = notices w"
  using assms
proof (induction files arbitrary: ok fail w)
  case Nil
  then show ?case by simp
next
  case (Cons f fs)
  obtain r w1 where t: "transformOne env i f pwh w = (r, w1)"
    by (cases "transformOne env i f pwh w") auto
  from transformOne_calls(1) [OF t] obtain c1 where
    c1: "events w1 = events w @ c1" "filter is_read c1 = [EvRead f]"
      "filter is_console_error c1 = []"
    by (elim exE conjE)
  have n1: "notices w1 = notices w" by (rule transformOne_calls(2) [OF t])
  show ?case
  proof (cases r)
    case (Inr u)
    with Cons.prems t have "batchLoop env i pwh fs (ok + 1, fail, w1) = (ok', fail', w')"
      by (simp add: batchLoop_Cons)
    from Cons.IH [OF this] obtain c2 where
      c2: "events w' = events w1 @ c2" "filter is_read c2 = map EvRead fs"
      "fail' = fail + length (filter is_console_error c2)"
      "ok' + fail' = ok + 1 + fail + length fs" "notices w' = notices w1"
      by (elim exE conjE)
    have "events w' = events w @ (c1 @ c2)" by (simp add: c2(1) c1(1))
    moreover have "filter is_read (c1 @ c2) = map EvRead (f # fs)" by (simp add: c2(2) c1(2))
    moreover have "fail' = fail + length (filter is_console_error (c1 @ c2))"
      by (simp add: c2(3) c1(3))
    moreover have "ok' + fail' = ok + fail + length (f # fs)" using c2(4) by simp
    moreover have "notices w' = notices w" by (simp add: c2(5) n1)
    ultimately show ?thesis by blast
  next
    case (Inl err)
    let ?e = "EvConsoleError (failure_message i) (file_path w1 f)"
    from Inl Cons.prems t
    have "batchLoop env i pwh fs (ok, fail + 1, log ?e w1) = (ok', fail', w')"
      by (simp add: batchLoop_Cons)
    from Cons.IH [OF this] obtain c2 where
      c2: "events w' = events (log ?e w1) @ c2" "filter is_read c2 = map EvRead fs"
      "fail' = fail + 1 + length (filter is_console_error c2)"
      "ok' + fail' = ok + (fail + 1) + length fs" "notices w' = notices (log ?e w1)"
      by (elim exE conjE)
    have "events w' = events w @ (c1 @ ?e # c2)" by (simp add: c2(1) c1(1) log_def)
    moreover have "filter is_read (c1 @ ?e # c2) = map EvRead (f # fs)"
      by (simp add: c2(2) c1(2) is_read_def)
    moreover have "fail' = fail + length (filter is_console_error (c1 @ ?e # c2))"
      by (simp add: c2(3) c1(3) is_console_error_def)
    moreover have "ok' + fail' = ok + fail + length (f # fs)" using c2(4) by simp
    moreover have "notices w' = notices w" by (simp add: c2(5) n1 log_def)
    ultimately show ?thesis by blast
  qed
qed

lemma processFolder_resolved:
  assumes "eligible env i w folder \<noteq> []"
    and "promptPasswordForFolder env (batch_title i folder) (i = Encrypting) (path folder) w
           = (Some pwh, w1)"
  shows "processFolder env i folder w =
           (case batchLoop env i pwh (eligible env i w folder) (0, 0, w1) of
              (ok, fail, w2) \<Rightarrow> Notice (summary (verb i) ok fail) w2)"
  using assms
  by (cases i) (simp_all add: eligible_def processFolder_def processEncryptFolder_def
      processDecryptFolder_def batch_title_def batchLoop_def summary_def verb_def)

section \<open>The example, evaluated\<close>

lemmas path_defs = extension_def extension_of_def file_name_def basename_of_def
  parent_prefix_def is_slash_def is_dot_def getFilePathWithNewExtension_def

lemma eligible_example:
  "getMarkdownFiles vault0 notes_dir = [0, 1]"
  "getEncryptedFiles env0 vault0 notes_dir = [2]"
  "getEncryptedFiles env0 vault0 other_dir = []"
  by (simp_all add: getMarkdownFiles_def getEncryptedFiles_def getFilesRecursively_def
      vault0_def notes_dir_def other_dir_def env0_def path_defs)

lemma prompt_example:
  "promptPasswordForFolder env0 (batch_title Encrypting notes_dir) True ''notes'' vault0 =
     (Some pw0,
      vault0\<lparr>events := [EvGetByPath ''notes'',
                         EvOpenModal (batch_title Encrypting notes_dir) True True blank]\<rparr>)"
  by (simp add: promptPasswordForFolder_def getByPathAsync_def openModal_def log_def lookup_def
      blank_def vault0_def env0_def)

lemma views_example:
  "has_view 1 vault0" "\<not> has_view 3 vault0"
  "filter (\<lambda>l. \<not> is_view_of 1 l) (leaves vault0) = [OtherView, TextFileView (Some 0)]"
  "detach_calls 1 vault0 = [EvDetach (TextFileView (Some 1)), EvDetach (TextFileView (Some 1))]"
  by (simp_all add: has_view_def is_view_of_def vault0_def detach_calls_def detach_event_def)

section \<open>Batch orchestrator: every file is counted\<close>

text \<open>
  C1. For every batch, encrypting or decrypting, over a non-empty eligible file set with a
  resolved password: a per-file transform that fails is caught inside the loop, adds one
  to the fail counter and lets the loop go on with the remaining files. After the loop
  exactly one notification is added, the summary \<open>Folder <verb>: N ok, M failed\<close>, and
  \<open>N + M\<close> is the number of eligible files. Every eligible file is read once, in the
  order of the scanner, and \<open>M\<close> is the number of failures that were logged.
\<close>

theorem batch_counts_every_file:
  assumes "eligible env i w folder \<noteq> []"
    and "promptPasswordForFolder env (batch_title i folder) (i = Encrypting) (path folder) w
           = (Some pwh, w1)"
  shows "(\<forall>file files ok fail w0 err w2.
            transformOne env i file pwh w0 = (Inl err, w2) \<longrightarrow>
            batchLoop env i pwh (file # files) (ok, fail, w0) =
              batchLoop env i pwh files
                (ok, fail + 1, log (EvConsoleError (failure_message i) (file_path w2 file)) w2))
       \<and> (\<exists>ok fail calls.
             notices (processFolder env i folder w) = notices w @ [summary (verb i) ok fail]
           \<and> ok + fail = length (eligible env i w folder)
           \<and> events (processFolder env i folder w) = events w1 @ calls
           \<and> filter is_read calls = map EvRead (eligible env i w folder)
           \<and> length (filter is_console_error calls) = fail)"
proof -
  obtain ok fail w2 where
    l: "batchLoop env i pwh (eligible env i w folder) (0, 0, w1) = (ok, fail, w2)"
    by (cases "batchLoop env i pwh (eligible env i w folder) (0, 0, w1)") auto
  from batchLoop_counts [OF l] obtain calls where
    c: "events w2 = events w1 @ calls" "filter is_read calls = map EvRead (eligible env i w folder)"
      "fail = 0 + length (filter is_console_error calls)"
      "ok + fail = 0 + 0 + length (eligible env i w folder)" "notices w2 = notices w1"
    by (elim exE conjE)
  from prompt_frame [OF assms(2)] have n: "notices w1 = notices w" by auto
  have p: "processFolder env i folder w = Notice (summary (verb i) ok fail) w2"
    by (simp add: processFolder_resolved [OF assms] l)
  have "notices (processFolder env i folder w) = notices w @ [summary (verb i) ok fail]"
    by (simp add: p Notice_def c(5) n)
  moreover have "ok + fail = length (eligible env i w folder)" using c(4) by simp
  moreover have "events (processFolder env i folder w) = events w1 @ calls"
    by (simp add: p Notice_def c(1))
  moreover have "length (filter is_console_error calls) = fail" using c(3) by simp
  ultimately have "\<exists>ok fail calls.
             notices (processFolder env i folder w) = notices w @ [summary (verb i) ok fail]
           \<and> ok + fail = length (eligible env i w folder)
           \<and> events (processFolder env i folder w) = events w1 @ calls
           \<and> filter is_read calls = map EvRead (eligible env i w folder)
           \<and> length (filter is_console_error calls) = fail"
    using c(2) by blast
  then show ?thesis by (simp add: batchLoop_Cons)
qed

theorem batch_counts_every_file_witness:
  "eligible env0 Encrypting vault0 notes_dir \<noteq> []
   \<and> (\<exists>ok fail. notices (processFolder env0 Encrypting notes_dir vault0)
                    = [summary ''encrypted'' ok fail]
                \<and> ok + fail = 2)"
proof -
  have e: "eligible env0 Encrypting vault0 notes_dir = [0, 1]"
    by (simp add: eligible_def eligible_example)
  then have h: "eligible env0 Encrypting vault0 notes_dir \<noteq> []" by simp
  have p: "promptPasswordForFolder env0 (batch_title Encrypting notes_dir)
             (Encrypting = Encrypting) (path notes_dir) vault0
           = (Some pw0,
              vault0\<lparr>events := [EvGetByPath ''notes'',
                  EvOpenModal (batch_title Encrypting notes_dir) True True blank]\<rparr>)"
    using prompt_example by (simp add: notes_dir_def)
  from batch_counts_every_file [OF h p] obtain ok fail where
    n: "notices (processFolder env0 Encrypting notes_dir vault0)
          = notices vault0 @ [summary (verb Encrypting) ok fail]"
    and s: "ok + fail = length (eligible env0 Encrypting vault0 notes_dir)"
    by blast
  have "notices (processFolder env0 Encrypting notes_dir vault0) = [summary ''encrypted'' ok fail]"
    using n by (simp add: verb_def vault0_def)
  moreover have "ok + fail = 2" using s e by simp
  ultimately show ?thesis using h by blast
qed

section \<open>Batch orchestrator: a cancelled prompt\<close>

text \<open>
  C2. For every batch over a non-empty eligible set, if the password prompt is cancelled
  by the user (the resolver returns \<open>null\<close>), the batch returns at once. The only calls
  it has made are the cache lookup and the prompt: no file is read, renamed or written,
  the paths and contents of all files, the open views and the session password cache are
  as they were, and no notification is shown.
\<close>

theorem cancelled_prompt_aborts_batch:
  assumes "eligible env i w folder \<noteq> []"
    and "fst (promptPasswordForFolder env (batch_title i folder) (i = Encrypting) (path folder) w)
           = None"
  shows "processFolder env i folder w =
           w\<lparr>events := events w @
               [EvGetByPath (path folder),
                EvOpenModal (batch_title i folder) (i = Encrypting) (i = Encrypting)
                  (lookup w (path folder))]\<rparr>
       \<and> file_path (processFolder env i folder w) = file_path w
       \<and> file_data (processFolder env i folder w) = file_data w
       \<and> leaves (processFolder env i folder w) = leaves w
       \<and> cache (processFolder env i folder w) = cache w
       \<and> notices (processFolder env i folder w) = notices w"
proof -
  obtain w1 where p: "promptPasswordForFolder env (batch_title i folder) (i = Encrypting)
      (path folder) w = (None, w1)"
    using assms(2)
    by (cases "promptPasswordForFolder env (batch_title i folder) (i = Encrypting) (path folder) w")
      auto
  have "processFolder env i folder w = w1"
    using assms(1) p
    by (cases i) (simp_all add: eligible_def processFolder_def processEncryptFolder_def
        processDecryptFolder_def batch_title_def)
  with prompt_None [OF p] show ?thesis by simp
qed

theorem cancelled_prompt_aborts_batch_witness:
  "eligible env_cancel Encrypting vault0 notes_dir \<noteq> []
   \<and> processFolder env_cancel Encrypting notes_dir vault0 =
       vault0\<lparr>events := [EvGetByPath ''notes'',
                          EvOpenModal (batch_title Encrypting notes_dir) True True blank]\<rparr>"
proof -
  have h: "eligible env_cancel Encrypting vault0 notes_dir \<noteq> []"
    by (simp add: eligible_def eligible_example)
  have p: "fst (promptPasswordForFolder env_cancel (batch_title Encrypting notes_dir)
             (Encrypting = Encrypting) (path notes_dir) vault0) = None"
    by (simp add: promptPasswordForFolder_def getByPathAsync_def openModal_def log_def
        lookup_def blank_def vault0_def env_cancel_def)
  from cancelled_prompt_aborts_batch [OF h p] h show ?thesis
    by (simp add: notes_dir_def lookup_def vault0_def)
qed

section \<open>Password resolver\<close>

text \<open>
  C3. For every directory and intent, the resolver of the code follows the reference
  algorithm: the answer it returns and the calls it makes to the cache and to the prompt
  are those of \<open>resolve\<close>. At level \<open>ExternalFile\<close> the lookup for the directory's path
  is returned with no prompt; otherwise a cached non-empty password is returned with no
  prompt; otherwise a prompt seeded with the cached value is opened, asking for
  confirmation iff the intent is \<open>Encrypting\<close>, and cancellation yields \<open>Cancelled\<close>.
\<close>

theorem resolver_follows_reference:
  "promptPasswordForFolder env (batch_title i folder) (i = Encrypting) (path folder) w =
     (case resolve env folder i w of
        (out, calls) \<Rightarrow> (answer out, w\<lparr>events := events w @ calls\<rparr>))"
  by (simp add: promptPasswordForFolder_def resolve_def getByPathAsync_def openModal_def
      log_def answer_def Let_def split: option.splits)

theorem resolver_follows_reference_witness:
  "resolve env0 notes_dir Decrypting (vault0\<lparr>level := LevelExternalFile\<rparr>)
     = (Resolved blank, [EvGetByPath ''notes''])
   \<and> promptPasswordForFolder env0 (batch_title Decrypting notes_dir) False ''notes''
       (vault0\<lparr>level := LevelExternalFile\<rparr>)
     = (Some blank, vault0\<lparr>level := LevelExternalFile, events := [EvGetByPath ''notes'']\<rparr>)"
proof -
  have r: "resolve env0 notes_dir Decrypting (vault0\<lparr>level := LevelExternalFile\<rparr>)
     = (Resolved blank, [EvGetByPath ''notes''])"
    by (simp add: resolve_def lookup_def vault0_def notes_dir_def)
  with resolver_follows_reference [of env0 Decrypting notes_dir "vault0\<lparr>level := LevelExternalFile\<rparr>"]
  show ?thesis
    by (simp add: answer_def notes_dir_def vault0_def)
qed

section \<open>View coordinator\<close>

text \<open>
  C4. For every per-file transform: a detach call is made iff some view is open on the
  file. If so, the file is reopened in a fresh view whether the rename and the write
  succeed or fail: exactly one reopen call is made, it is the last call, and afterwards
  the leaves are the old ones without the views on the file, followed by one new view on
  the file. If no view on the file was open, no reopen call is made and the leaves are
  unchanged.
\<close>

theorem reopened_iff_detached:
  assumes "closeUpdateRememberPasswordThenReopen env file ext content pw w = (r, w')"
  shows "\<exists>calls. events w' = events w @ calls
           \<and> list_ex is_detach calls = has_view file w
           \<and> (if has_view file w
              then filter is_open calls = [EvOpenFile file] \<and> last calls = EvOpenFile file
                   \<and> (\<exists>v. is_view_of file v
                        \<and> leaves w' = filter (\<lambda>l. \<not> is_view_of file l) (leaves w) @ [v])
              else filter is_open calls = [] \<and> leaves w' = leaves w)"
proof -
  from closeUpdate_effect(1) [OF assms] obtain n where n: "n \<in> {1, 2, 3}"
    and ev: "events w' = events w @ detach_calls file w @ take n (update_calls w file ext content pw)
             @ (if has_view file w then [EvOpenFile file] else [])"
    by blast
  let ?calls = "detach_calls file w @ take n (update_calls w file ext content pw)
             @ (if has_view file w then [EvOpenFile file] else [])"
  have "list_ex is_detach ?calls = has_view file w"
    using take_update_calls_not_detach [OF n, of w "file" ext content pw]
      is_detach_detach_calls [of "file" w]
    by (simp add: is_detach_def)
  moreover have "filter is_open ?calls = (if has_view file w then [EvOpenFile file] else [])"
    using take_update_calls_not_open [OF n, of w "file" ext content pw]
    by (simp add: is_open_def)
  moreover have "has_view file w \<Longrightarrow> last ?calls = EvOpenFile file"
    by simp
  moreover have "has_view file w \<Longrightarrow> \<exists>v. is_view_of file v
                        \<and> leaves w' = filter (\<lambda>l. \<not> is_view_of file l) (leaves w) @ [v]"
    using closeUpdate_effect(3) [OF assms] opened_is_view by auto
  moreover have "\<not> has_view file w \<Longrightarrow> leaves w' = leaves w"
    using closeUpdate_effect(3) [OF assms] no_view_filter by auto
  ultimately show ?thesis using ev by (intro exI [of _ ?calls]) auto
qed

text \<open>In the example the write to \<open>b.md\<close> fails, and the file is reopened all the same.\<close>

theorem reopened_iff_detached_witness:
  "fst (closeUpdateRememberPasswordThenReopen env0 1 ''mdenc'' ''text'' pw0 vault0)
     = Inl StorageFailed
   \<and> has_view 1 vault0
   \<and> (\<exists>v. is_view_of 1 v
         \<and> leaves (snd (closeUpdateRememberPasswordThenReopen env0 1 ''mdenc'' ''text'' pw0 vault0))
             = [OtherView, TextFileView (Some 0), v])"
proof -
  let ?c = "closeUpdateRememberPasswordThenReopen env0 1 ''mdenc'' ''text'' pw0 vault0"
  have f: "fst ?c = Inl StorageFailed"
    by (simp add: closeUpdate_unfold renameModifyRemember_def renameFile_def modify_def env0_def
        Let_def split: prod.splits)
  have "?c = (fst ?c, snd ?c)" by simp
  from reopened_iff_detached [OF this] f views_example show ?thesis by auto
qed

section \<open>File transform engine: the order of the calls\<close>

text \<open>
  C5. For every per-file transform the calls come in a fixed order: first one detach call
  for every view that is open on the file, then the rename to the new path, then the
  content write, then the cache entry, and last the reopen if a view was detached. The
  rename and the write run in a world in which no view on the file is attached, the write
  is never made before the rename, and a call is made only when the calls before it
  succeeded (the reopen apart).
\<close>

theorem detach_rename_write_order:
  assumes "closeUpdateRememberPasswordThenReopen env file ext content pw w = (r, w')"
  shows "(\<exists>w2. renameModifyRemember env file ext content pw (detached file w) = (r, w2))
         \<and> \<not> has_view file (detached file w)
         \<and> (\<exists>n \<in> {1, 2, 3}.
               events w' = events w @ detach_calls file w
                 @ take n [EvRename file (getFilePathWithNewExtension w file ext),
                           EvModify file content, EvPutByFile pw file]
                 @ (if has_view file w then [EvOpenFile file] else []))"
proof -
  have "\<exists>w2. renameModifyRemember env file ext content pw (detached file w) = (r, w2)"
    using assms by (auto simp: closeUpdate_unfold split: prod.splits)
  moreover from closeUpdate_effect(1) [OF assms]
  have "\<exists>n \<in> {1, 2, 3}.
               events w' = events w @ detach_calls file w
                 @ take n [EvRename file (getFilePathWithNewExtension w file ext),
                           EvModify file content, EvPutByFile pw file]
                 @ (if has_view file w then [EvOpenFile file] else [])"
    unfolding update_calls_def by blast
  ultimately show ?thesis using no_view_detached by blast
qed

theorem detach_rename_write_order_witness:
  "\<exists>n \<in> {1, 2, 3}.
     events (snd (closeUpdateRememberPasswordThenReopen env0 1 ''mdenc'' ''text'' pw0 vault0))
       = [EvDetach (TextFileView (Some 1)), EvDetach (TextFileView (Some 1))]
         @ take n [EvRename 1 ''notes/b.mdenc'', EvModify 1 ''text'', EvPutByFile pw0 1]
         @ [EvOpenFile 1]"
proof -
  let ?c = "closeUpdateRememberPasswordThenReopen env0 1 ''mdenc'' ''text'' pw0 vault0"
  have "?c = (fst ?c, snd ?c)" by simp
  from detach_rename_write_order [OF this] views_example
  have "\<exists>n \<in> {1, 2, 3}. events (snd ?c) = events vault0
         @ [EvDetach (TextFileView (Some 1)), EvDetach (TextFileView (Some 1))]
         @ take n [EvRename 1 (getFilePathWithNewExtension vault0 1 ''mdenc''),
                   EvModify 1 ''text'', EvPutByFile pw0 1]
         @ [EvOpenFile 1]"
    by simp
  moreover have "getFilePathWithNewExtension vault0 1 ''mdenc'' = ''notes/b.mdenc''"
    by (simp add: path_defs vault0_def)
  moreover have "events vault0 = []" by (simp add: vault0_def)
  ultimately show ?thesis by simp
qed

section \<open>File transform engine: a fully successful transform\<close>



section \<open>Batch orchestrator: nothing to do\<close>

text \<open>
  C7. For every directory with no eligible file for the chosen direction, the batch adds
  the notice \<open>No <kind> files to <verb> in this folder.\<close> and returns at once: nothing
  else of the world changes, so the resolver is never invoked (no cache lookup and no
  prompt is among the calls) and no file is touched.
\<close>

theorem no_eligible_file_no_resolver:
  assumes "eligible env i w folder = []"
  shows "processFolder env i folder w = w\<lparr>notices := notices w @ [nothing_to_do i]\<rparr>
       \<and> events (processFolder env i folder w) = events w
       \<and> file_path (processFolder env i folder w) = file_path w
       \<and> file_data (processFolder env i folder w) = file_data w
       \<and> cache (processFolder env i folder w) = cache w"
  using assms
  by (cases i) (simp_all add: eligible_def processFolder_def processEncryptFolder_def
      processDecryptFolder_def Notice_def nothing_to_do_def)

theorem no_eligible_file_no_resolver_witness:
  "eligible env0 Decrypting vault0 other_dir = []
   \<and> processFolder env0 Decrypting other_dir vault0
       = vault0\<lparr>notices := [''No encrypted files to decrypt in this folder.'']\<rparr>"
proof -
  have h: "eligible env0 Decrypting vault0 other_dir = []"
    by (simp add: eligible_def eligible_example)
  from no_eligible_file_no_resolver [OF h] h show ?thesis
    by (simp add: nothing_to_do_def vault0_def)
qed

section \<open>Batch orchestrator: a failed decryption\<close>

text \<open>
  C8. For every file of a decrypting batch: when the codec cannot decode the file's text,
  or the decryption collaborator answers \<open>null\<close> (wrong password or corrupt envelope),
  the per-file transform ends in a failure and no exception leaves the loop. The loop
  over that one file returns with the fail counter one higher, the ok counter as it was,
  and a world in which the file is neither renamed nor written: the read and the logged
  failure are the only calls. When more files follow, the loop returns all the same, its
  fail counter is at least one higher, the two counters together have grown by the number
  of files, and every remaining file has been read after the failed one.
\<close>

theorem failed_decryption_is_counted:
  assumes "(\<exists>err. decode env (file_data w file) = Inl err)
         \<or> (\<exists>envelope. decode env (file_data w file) = Inr envelope
               \<and> decrypt env envelope (password pwh) = Inr None)"
  shows "(\<exists>err. decryptOne env file pwh w = (Inl err, w\<lparr>events := events w @ [EvRead file]\<rparr>))
       \<and> decryptLoop env pwh [file] (ok, fail, w) =
           (ok, fail + 1,
            w\<lparr>events := events w
                 @ [EvRead file, EvConsoleError ''Failed to decrypt'' (file_path w file)]\<rparr>)
       \<and> (\<exists>ok' fail' w' calls.
             decryptLoop env pwh (file # files) (ok, fail, w) = (ok', fail', w')
           \<and> fail + 1 \<le> fail'
           \<and> ok' + fail' = ok + fail + 1 + length files
           \<and> events w' = events w
                 @ [EvRead file, EvConsoleError ''Failed to decrypt'' (file_path w file)] @ calls
           \<and> filter is_read calls = map EvRead files)"
proof -
  let ?w1 = "w\<lparr>events := events w
                 @ [EvRead file, EvConsoleError ''Failed to decrypt'' (file_path w file)]\<rparr>"
  have one: "\<exists>err. decryptOne env file pwh w = (Inl err, w\<lparr>events := events w @ [EvRead file]\<rparr>)"
    using assms by (auto simp: decryptOne_def decryptFile_def read_def log_def)
  then have step: "decryptLoop env pwh (file # fs) (ok, fail, w)
                     = decryptLoop env pwh fs (ok, fail + 1, ?w1)" for fs
    by (auto simp: log_def)
  have single: "decryptLoop env pwh [file] (ok, fail, w) = (ok, fail + 1, ?w1)"
    using step [of "[]"] by simp
  obtain ok' fail' w' where
    l: "decryptLoop env pwh files (ok, fail + 1, ?w1) = (ok', fail', w')"
    by (cases "decryptLoop env pwh files (ok, fail + 1, ?w1)") auto
  then have "batchLoop env Decrypting pwh files (ok, fail + 1, ?w1) = (ok', fail', w')"
    by (simp add: batchLoop_def)
  from batchLoop_counts [OF this] obtain calls where
    c: "events w' = events ?w1 @ calls" "filter is_read calls = map EvRead files"
      "fail' = fail + 1 + length (filter is_console_error calls)"
      "ok' + fail' = ok + (fail + 1) + length files"
    by (elim exE conjE)
  have "decryptLoop env pwh (file # files) (ok, fail, w) = (ok', fail', w')"
    using step [of files] l by simp
  moreover have "fail + 1 \<le> fail'" using c(3) by simp
  moreover have "ok' + fail' = ok + fail + 1 + length files" using c(4) by simp
  moreover have "events w' = events w
                 @ [EvRead file, EvConsoleError ''Failed to decrypt'' (file_path w file)] @ calls"
    using c(1) by simp
  ultimately have "\<exists>ok' fail' w' calls.
             decryptLoop env pwh (file # files) (ok, fail, w) = (ok', fail', w')
           \<and> fail + 1 \<le> fail'
           \<and> ok' + fail' = ok + fail + 1 + length files
           \<and> events w' = events w
                 @ [EvRead file, EvConsoleError ''Failed to decrypt'' (file_path w file)] @ calls
           \<and> filter is_read calls = map EvRead files"
    using c(2) by blast
  with one single show ?thesis by blast
qed

text \<open>In the example, \<open>a.md\<close> is no envelope, and \<open>c.mdenc\<close> was encrypted with another
  password than the one tried.\<close>

theorem failed_decryption_is_counted_witness:
  "decode env0 (file_data vault0 0) = Inl MalformedEnvelope
   \<and> decryptLoop env0 pw0 [0] (0, 0, vault0)
       = (0, 1, vault0\<lparr>events := [EvRead 0, EvConsoleError ''Failed to decrypt'' ''notes/a.md'']\<rparr>)
   \<and> decode env0 (file_data vault0 2) = Inr (''pw'', ''gamma'')
   \<and> decrypt env0 (''pw'', ''gamma'') (password blank) = Inr None
   \<and> decryptLoop env0 blank [2] (3, 4, vault0)
       = (3, 5, vault0\<lparr>events := [EvRead 2,
                                      EvConsoleError ''Failed to decrypt'' ''notes/sub/c.mdenc'']\<rparr>)"
proof -
  have a: "decode env0 (file_data vault0 0) = Inl MalformedEnvelope"
    by (simp add: env0_def vault0_def)
  have b: "decode env0 (file_data vault0 2) = Inr (''pw'', ''gamma'')"
    "decrypt env0 (''pw'', ''gamma'') (password blank) = Inr None"
    by (simp_all add: env0_def vault0_def blank_def)
  have e: "events vault0 = []" "file_path vault0 0 = ''notes/a.md''"
    "file_path vault0 2 = ''notes/sub/c.mdenc''"
    by (simp_all add: vault0_def)
  from a have "(\<exists>err. decode env0 (file_data vault0 0) = Inl err)
         \<or> (\<exists>envelope. decode env0 (file_data vault0 0) = Inr envelope
               \<and> decrypt env0 envelope (password pw0) = Inr None)"
    by simp
  from failed_decryption_is_counted [OF this, of 0 0 "[]"]
  have 1: "decryptLoop env0 pw0 [0] (0, 0, vault0)
       = (0, 1, vault0\<lparr>events := [EvRead 0, EvConsoleError ''Failed to decrypt'' ''notes/a.md'']\<rparr>)"
    by (simp add: e)
  from b have "(\<exists>err. decode env0 (file_data vault0 2) = Inl err)
         \<or> (\<exists>envelope. decode env0 (file_data vault0 2) = Inr envelope
               \<and> decrypt env0 envelope (password blank) = Inr None)"
    by simp
  from failed_decryption_is_counted [OF this, of 3 4 "[]"]
  have 2: "decryptLoop env0 blank [2] (3, 4, vault0)
       = (3, 5, vault0\<lparr>events := [EvRead 2,
                                      EvConsoleError ''Failed to decrypt'' ''notes/sub/c.mdenc'']\<rparr>)"
    by (simp add: e)
  from 1 2 a b show ?thesis by simp
qed

section \<open>Directory scanner\<close>

text \<open>
  C9. A file should be selected for a batch iff it is in the storage listing, lies in the
  directory (its path starts with the directory's path followed by a slash, with no
  required prefix when the directory is the vault root) and has the extension of the
  direction. The scanner does so below every other directory, but not at the root: it
  drops the prefix only for a directory whose path is empty, while the root has the path
  \<open>/\<close>, for which it asks for the prefix \<open>//\<close>. In the example vault the note
  \<open>notes/a.md\<close> is in the listing, lies in the root and has the extension \<open>md\<close>, yet
  it is not selected: the scanner selects no file at all below the root, for either
  direction, and the encrypting batch on the root reports that there is nothing to do.
\<close>

theorem scanner_misses_vault_root:
  "0 \<in> set (getFiles vault0) \<and> belongs_to vault0 0 vault_root \<and> extension vault0 0 = ''md''
   \<and> 0 \<notin> set (getMarkdownFiles vault0 vault_root)
   \<and> getFilesRecursively vault0 vault_root = []
   \<and> getMarkdownFiles vault0 vault_root = []
   \<and> getEncryptedFiles env0 vault0 vault_root = []
   \<and> processEncryptFolder env0 vault_root vault0
       = vault0\<lparr>notices := [''No markdown files to encrypt in this folder.'']\<rparr>"
proof -
  have r: "getFilesRecursively vault0 vault_root = []"
    by (simp add: getFilesRecursively_def vault0_def vault_root_def)
  then have m: "getMarkdownFiles vault0 vault_root = []"
    and c: "getEncryptedFiles env0 vault0 vault_root = []"
    by (simp_all add: getMarkdownFiles_def getEncryptedFiles_def)
  have "processEncryptFolder env0 vault_root vault0
       = Notice ''No markdown files to encrypt in this folder.'' vault0"
    by (simp add: processEncryptFolder_def m)
  then have "processEncryptFolder env0 vault_root vault0
       = vault0\<lparr>notices := [''No markdown files to encrypt in this folder.'']\<rparr>"
    by (simp add: Notice_def vault0_def)
  moreover have "0 \<in> set (getFiles vault0)" "extension vault0 0 = ''md''"
    by (simp_all add: vault0_def path_defs)
  moreover have "belongs_to vault0 0 vault_root"
    by (simp add: belongs_to_def isRoot_def vault_root_def)
  ultimately show ?thesis using r m c by simp
qed

section \<open>File transform engine: a write that fails after the rename\<close>

text \<open>
  C10. For every per-file transform in which the rename succeeds and the content write
  that follows it fails: the session password cache is left as it was (the cache entry is
  not written), the file keeps its new path and its old content, and the error of the
  write is returned to the loop after the file has been reopened if a view was detached.
\<close>

theorem failed_write_keeps_cache:
  assumes "renameFile env file (getFilePathWithNewExtension w file ext) (detached file w)
             = (Inr (), w1)"
    and "modify env file content w1 = (Inl e, w2)"
  shows "\<exists>w'. closeUpdateRememberPasswordThenReopen env file ext content pw w = (Inl e, w')
           \<and> w' = (if has_view file w then openFile env file w2 else w2)
           \<and> cache w' = cache w
           \<and> file_path w' file = getFilePathWithNewExtension w file ext
           \<and> file_data w' file = file_data w file
           \<and> events w' = events w @ detach_calls file w
               @ [EvRename file (getFilePathWithNewExtension w file ext), EvModify file content]
               @ (if has_view file w then [EvOpenFile file] else [])"
  using assms
  by (auto simp: closeUpdate_unfold renameModifyRemember_def renameFile_def modify_def
      detached_def openFile_def log_def Let_def getFilePathWithNewExtension_def split: if_splits)

theorem failed_write_keeps_cache_witness:
  "\<exists>w'. closeUpdateRememberPasswordThenReopen env0 1 ''mdenc'' ''text'' pw0 vault0
           = (Inl StorageFailed, w')
       \<and> cache w' = cache vault0
       \<and> file_path w' 1 = ''notes/b.mdenc''
       \<and> file_data w' 1 = ''beta''
       \<and> events w' = [EvDetach (TextFileView (Some 1)), EvDetach (TextFileView (Some 1)),
                        EvRename 1 ''notes/b.mdenc'', EvModify 1 ''text'', EvOpenFile 1]"
proof -
  let ?p = "getFilePathWithNewExtension vault0 1 ''mdenc''"
  let ?w1 = "snd (renameFile env0 1 ?p (detached 1 vault0))"
  let ?w2 = "snd (modify env0 1 ''text'' ?w1)"
  have r: "renameFile env0 1 ?p (detached 1 vault0) = (Inr (), ?w1)"
    by (simp add: renameFile_def env0_def)
  have m: "modify env0 1 ''text'' ?w1 = (Inl StorageFailed, ?w2)"
    by (simp add: modify_def env0_def)
  have p: "?p = ''notes/b.mdenc''" by (simp add: path_defs vault0_def)
  have v: "events vault0 = []" "file_data vault0 1 = ''beta''" by (simp_all add: vault0_def)
  from failed_write_keeps_cache [OF r m, of pw0] views_example p v show ?thesis
    by simp
qed

end
